theory Spec2Isabelle
  imports Main
begin

section \<open>Data model\<close>

text \<open>
  The model follows the current version of the component, \<open>src/unnamed/part_000\<close>;
  \<open>src/index.tsx\<close> is an earlier version with the same scoring, timer and start of a
  quiz (without the saved name and the \<open>starts\<close> counter) and without the gamification
  helpers.

  The interfaces of the quiz application. JavaScript numbers that hold counts (\<open>score\<close>,
  \<open>total\<close>, \<open>starts\<close>) are natural numbers, the other numbers are integers. An optional
  field is an \<open>option\<close>; \<open>durationMinutes\<close> is declared as a number but read with a
  default, so a missing value is \<open>None\<close>. Field names that clash with a HOL constant or
  with another record carry a prefix.
\<close>

datatype Difficulty = Easy | Medium | Hard

record Question =
  qtext :: string
  options :: "string list"
  correctIndex :: int
  explanation :: "string option"

record Quiz =
  quiz_id :: string
  title :: string
  subject :: "string option"
  difficulty :: Difficulty
  questions :: "Question list"
  durationMinutes :: "int option"
  starts :: "nat option"
  createdAt :: int

record Result =
  result_id :: string
  quizId :: string
  studentName :: string
  score :: nat
  total :: nat
  date :: int

datatype View = Landing | TeacherDash | TeacherCreate | TeacherNotes | TeacherLeaderboard
  | StudentDash | StudentNotes | StudentQuiz | StudentResult

datatype ToastType = Success | Error | Info

section \<open>JavaScript built-ins used by the code\<close>

text \<open>
  A \<open>char\<close> stands for the UTF-16 code unit of the same number, so a \<open>string\<close> is a
  JavaScript string whose code units lie between U+0000 and U+00FF (Basic Latin and the
  Latin-1 Supplement); strings with other code units are outside the model.

  \<open>String.prototype.toLowerCase\<close> on this range maps \<open>A\<close> to \<open>Z\<close> and the capital
  letters U+00C0 to U+00DE other than the multiplication sign U+00D7 to the code unit 32
  higher, and leaves every other code unit as it is.
\<close>

definition toLowerChar :: "char \<Rightarrow> char" where
  "toLowerChar c =
     (case map_of
        (zip (''ABCDEFGHIJKLMNOPQRSTUVWXYZ'' @
           [CHR 0xC0, CHR 0xC1, CHR 0xC2, CHR 0xC3, CHR 0xC4, CHR 0xC5, CHR 0xC6, CHR 0xC7,
            CHR 0xC8, CHR 0xC9, CHR 0xCA, CHR 0xCB, CHR 0xCC, CHR 0xCD, CHR 0xCE, CHR 0xCF,
            CHR 0xD0, CHR 0xD1, CHR 0xD2, CHR 0xD3, CHR 0xD4, CHR 0xD5, CHR 0xD6, CHR 0xD8,
            CHR 0xD9, CHR 0xDA, CHR 0xDB, CHR 0xDC, CHR 0xDD, CHR 0xDE])
          (''abcdefghijklmnopqrstuvwxyz'' @
           [CHR 0xE0, CHR 0xE1, CHR 0xE2, CHR 0xE3, CHR 0xE4, CHR 0xE5, CHR 0xE6, CHR 0xE7,
            CHR 0xE8, CHR 0xE9, CHR 0xEA, CHR 0xEB, CHR 0xEC, CHR 0xED, CHR 0xEE, CHR 0xEF,
            CHR 0xF0, CHR 0xF1, CHR 0xF2, CHR 0xF3, CHR 0xF4, CHR 0xF5, CHR 0xF6, CHR 0xF8,
            CHR 0xF9, CHR 0xFA, CHR 0xFB, CHR 0xFC, CHR 0xFD, CHR 0xFE])) c of
        None \<Rightarrow> c | Some l \<Rightarrow> l)"

definition toLowerCase :: "string \<Rightarrow> string" where
  "toLowerCase s = map toLowerChar s"

text \<open>
  \<open>String.prototype.trim\<close> removes white space and line terminators from both ends. On
  this range they are the tab, line feed, vertical tab, form feed, carriage return, space
  and the no-break space U+00A0.
\<close>

definition isWhiteSpace :: "char \<Rightarrow> bool" where
  "isWhiteSpace c =
     (c \<in> set [CHR '' '', CHR 0x09, CHR 0x0A, CHR 0x0B, CHR 0x0C, CHR 0x0D, CHR 0xA0])"

definition trim :: "string \<Rightarrow> string" where
  "trim s = rev (dropWhile isWhiteSpace (rev (dropWhile isWhiteSpace s)))"

text \<open>Number-to-string conversion of a non-negative integer, as a template literal does it.\<close>

definition digitChar :: "nat \<Rightarrow> char" where
  "digitChar d =
     (if d = 0 then CHR ''0'' else if d = 1 then CHR ''1'' else if d = 2 then CHR ''2''
      else if d = 3 then CHR ''3'' else if d = 4 then CHR ''4'' else if d = 5 then CHR ''5''
      else if d = 6 then CHR ''6'' else if d = 7 then CHR ''7'' else if d = 8 then CHR ''8''
      else CHR ''9'')"

fun numberToString :: "nat \<Rightarrow> string" where
  "numberToString n =
     (if n < 10 then [digitChar n] else numberToString (n div 10) @ [digitChar (n mod 10)])"

declare numberToString.simps [simp del]

text \<open>Reading an array at an index: \<open>undefined\<close> (here \<open>None\<close>) outside the array.\<close>

definition arrayGet :: "'a list \<Rightarrow> nat \<Rightarrow> 'a option" where
  "arrayGet xs i = (if i < length xs then Some (xs ! i) else None)"

text \<open>
  \<open>Array.prototype.sort\<close> with a comparator is a stable sort: an element goes in front of
  the first element the comparator does not put before it.
\<close>

fun insertCmp :: "('a \<Rightarrow> 'a \<Rightarrow> int) \<Rightarrow> 'a \<Rightarrow> 'a list \<Rightarrow> 'a list" where
  "insertCmp cmp x [] = [x]"
| "insertCmp cmp x (y # ys) = (if cmp x y \<le> 0 then x # y # ys else y # insertCmp cmp x ys)"

definition sortCmp :: "('a \<Rightarrow> 'a \<Rightarrow> int) \<Rightarrow> 'a list \<Rightarrow> 'a list" where
  "sortCmp cmp xs = foldr (insertCmp cmp) xs []"

text \<open>\<open>Array.prototype.findIndex\<close>: the first index whose element passes, or -1.\<close>

fun findIndexFrom :: "('a \<Rightarrow> bool) \<Rightarrow> 'a list \<Rightarrow> int \<Rightarrow> int" where
  "findIndexFrom p [] i = -1"
| "findIndexFrom p (x # xs) i = (if p x then i else findIndexFrom p xs (i + 1))"

definition findIndex :: "('a \<Rightarrow> bool) \<Rightarrow> 'a list \<Rightarrow> int" where
  "findIndex p xs = findIndexFrom p xs 0"


section \<open>Scoring\<close>

text \<open>
  The loop of \<open>submitQuiz\<close>: \<open>questions.forEach((q, i) => { if (answers[i] ===
  q.correctIndex) score++; })\<close>, with the index and the score passed along.
\<close>

fun scoreLoop :: "Question list \<Rightarrow> nat \<Rightarrow> int list \<Rightarrow> nat \<Rightarrow> nat" where
  "scoreLoop [] i answers sc = sc"
| "scoreLoop (q # qs) i answers sc =
     scoreLoop qs (Suc i) answers
       (if arrayGet answers i = Some (correctIndex q) then Suc sc else sc)"

definition computeScore :: "Quiz \<Rightarrow> int list \<Rightarrow> nat" where
  "computeScore quiz answers = scoreLoop (questions quiz) 0 answers 0"

section \<open>Gamification helpers\<close>

definition sameStudent :: "string \<Rightarrow> Result \<Rightarrow> bool" where
  "sameStudent name r = (toLowerCase (studentName r) = toLowerCase name)"

definition hasGrammarMaster :: "string \<Rightarrow> Result list \<Rightarrow> bool" where
  "hasGrammarMaster name allResults =
     list_ex (\<lambda>r. sameStudent name r \<and> score r = total r) allResults"

text \<open>
  The key of the deduplication, \<open>`${r.studentName.trim().toLowerCase()}-${r.score}`\<close>, and
  the loop that keeps the first result of each key.
\<close>

definition dedupKey :: "Result \<Rightarrow> string" where
  "dedupKey r = toLowerCase (trim (studentName r)) @ ''-'' @ numberToString (score r)"

definition dedupStep :: "Result \<Rightarrow> string set \<times> Result list \<Rightarrow> string set \<times> Result list" where
  "dedupStep r st =
     (case st of (seen, uniqueResults) \<Rightarrow>
        if dedupKey r \<notin> seen then (insert (dedupKey r) seen, uniqueResults @ [r])
        else (seen, uniqueResults))"

definition dedupLoop :: "Result list \<Rightarrow> Result list" where
  "dedupLoop quizResults = snd (fold dedupStep quizResults ({}, []))"

definition byDateAsc :: "Result \<Rightarrow> Result \<Rightarrow> int" where
  "byDateAsc a b = date a - date b"

definition byScoreDesc :: "Result \<Rightarrow> Result \<Rightarrow> int" where
  "byScoreDesc a b = int (score b) - int (score a)"

definition byScoreThenDate :: "Result \<Rightarrow> Result \<Rightarrow> int" where
  "byScoreThenDate a b =
     (if score b \<noteq> score a then int (score b) - int (score a) else date a - date b)"

definition isTop3Sorted :: "string \<Rightarrow> Result list \<Rightarrow> Result list" where
  "isTop3Sorted qid allResults =
     (let quizResults = sortCmp byDateAsc (filter (\<lambda>r. quizId r = qid) allResults);
          uniqueResults = dedupLoop quizResults
      in sortCmp byScoreDesc uniqueResults)"

definition isTop3 :: "string \<Rightarrow> string \<Rightarrow> Result list \<Rightarrow> bool" where
  "isTop3 name qid allResults =
     (let index = findIndex (sameStudent name) (isTop3Sorted qid allResults)
      in index \<noteq> -1 \<and> index < 3)"

definition hasAnyTop3 :: "string \<Rightarrow> Result list \<Rightarrow> bool" where
  "hasAnyTop3 name allResults =
     list_ex (\<lambda>r. sameStudent name r \<and> isTop3 name (quizId r) allResults) allResults"

section \<open>Leaderboard\<close>

definition getLeaderboard :: "Result list \<Rightarrow> string \<Rightarrow> Result list" where
  "getLeaderboard allResults qid =
     (let quizResults = sortCmp byDateAsc (filter (\<lambda>r. quizId r = qid) allResults);
          uniqueResults = dedupLoop quizResults
      in sortCmp byScoreThenDate uniqueResults)"

text \<open>The rank shown beside a row: \<open>#{i + 1}\<close> for the row at index \<open>i\<close>.\<close>

definition withRanks :: "'a list \<Rightarrow> (nat \<times> 'a) list" where
  "withRanks xs = zip [1 ..< Suc (length xs)] xs"

section \<open>Streak\<close>


definition msPerDay :: int where
  "msPerDay = 1000 * 60 * 60 * 24"








section \<open>Quiz session\<close>

text \<open>
  The part of the component state that a quiz attempt reads and writes. \<open>savedName\<close> is
  the \<open>studentName\<close> entry of the local storage. The session is idle in the views other
  than \<open>StudentQuiz\<close> and \<open>StudentResult\<close>, active in \<open>StudentQuiz\<close> and finished in
  \<open>StudentResult\<close>.
\<close>

record AppState =
  view :: View
  activeQuiz :: "Quiz option"
  studentNameSt :: string
  answers :: "int list"
  currentResult :: "Result option"
  timeLeft :: int
  toast :: "(string \<times> ToastType) option"
  savedName :: "string option"

text \<open>\<open>v || d\<close> on a number: \<open>undefined\<close> and 0 are falsy.\<close>

definition orDefault :: "int option \<Rightarrow> int \<Rightarrow> int" where
  "orDefault v d = (case v of None \<Rightarrow> d | Some n \<Rightarrow> if n = 0 then d else n)"

text \<open>
  \<open>startQuiz\<close>. The increment of the quiz's \<open>starts\<close> counter is a write to the store
  whose failure is caught and logged; it changes nothing in the component state.
\<close>

definition startQuiz :: "Quiz \<Rightarrow> AppState \<Rightarrow> AppState" where
  "startQuiz quiz s =
     (if trim (studentNameSt s) = [] then
        s\<lparr>toast := Some (''Please enter your name first.'', Error)\<rparr>
      else
        s\<lparr>savedName := Some (studentNameSt s),
          activeQuiz := Some quiz,
          answers := replicate (length (questions quiz)) (- 1),
          timeLeft := orDefault (durationMinutes quiz) 10 * 60,
          view := StudentQuiz\<rparr>)"

text \<open>
  \<open>submitQuiz\<close>. \<open>now\<close> is \<open>Date.now()\<close>; \<open>written\<close> is the outcome of the write
  \<open>addDoc(collection(db, "results"), resultData)\<close>: the identifier of the new document, or
  the message of the exception.
\<close>

definition submitQuiz :: "int \<Rightarrow> string + string \<Rightarrow> AppState \<Rightarrow> AppState" where
  "submitQuiz now written s =
     (case activeQuiz s of
        None \<Rightarrow> s
      | Some q \<Rightarrow>
          (case written of
             Inr docId \<Rightarrow>
               s\<lparr>currentResult :=
                    Some \<lparr>result_id = docId, quizId = quiz_id q, studentName = studentNameSt s,
                          score = computeScore q (answers s), total = length (questions q),
                          date = now\<rparr>,
                 view := StudentResult,
                 toast := Some (''Quiz submitted successfully!'', Success)\<rparr>
           | Inl msg \<Rightarrow> s\<lparr>toast := Some (''Submission failed: '' @ msg, Error)\<rparr>))"

text \<open>
  The timer effect runs when \<open>timeLeft\<close> or \<open>view\<close> has changed: with time left it arms
  the interval, at 0 it submits. A tick of the armed interval sets
  \<open>prev <= 1 ? 0 : prev - 1\<close>, after which the effect runs again.
\<close>

definition timerEffect :: "int \<Rightarrow> string + string \<Rightarrow> AppState \<Rightarrow> AppState" where
  "timerEffect now written s =
     (if view s = StudentQuiz \<and> timeLeft s > 0 then s
      else if view s = StudentQuiz \<and> timeLeft s = 0 \<and> activeQuiz s \<noteq> None then
        submitQuiz now written s
      else s)"

definition tick :: "int \<Rightarrow> string + string \<Rightarrow> AppState \<Rightarrow> AppState" where
  "tick now written s =
     (if view s = StudentQuiz \<and> timeLeft s > 0 then
        timerEffect now written (s\<lparr>timeLeft := (if timeLeft s \<le> 1 then 0 else timeLeft s - 1)\<rparr>)
      else s)"

section \<open>The specification's own words\<close>

text \<open>The normalized name of the specification: trimmed and lowercased.\<close>

definition normalizedName :: "string \<Rightarrow> string" where
  "normalizedName name = toLowerCase (trim name)"

text \<open>
  The leaderboard as the specification describes it: the results of the quiz, sorted by
  ascending timestamp, the first result of each pair (normalized name, score) kept, the
  rest ordered by descending score and then ascending timestamp.
\<close>

fun keepFirstBy :: "('a \<Rightarrow> 'k) \<Rightarrow> 'a list \<Rightarrow> 'a list" where
  "keepFirstBy key [] = []"
| "keepFirstBy key (x # xs) = x # keepFirstBy key (filter (\<lambda>y. key y \<noteq> key x) xs)"

definition specKey :: "Result \<Rightarrow> string \<times> nat" where
  "specKey r = (normalizedName (studentName r), score r)"

definition precedes :: "Result \<Rightarrow> Result \<Rightarrow> bool" where
  "precedes a b = (score b < score a \<or> (score a = score b \<and> date a \<le> date b))"

fun insertBy :: "('a \<Rightarrow> 'a \<Rightarrow> bool) \<Rightarrow> 'a \<Rightarrow> 'a list \<Rightarrow> 'a list" where
  "insertBy le x [] = [x]"
| "insertBy le x (y # ys) = (if le x y then x # y # ys else y # insertBy le x ys)"

definition specLeaderboard :: "Result list \<Rightarrow> string \<Rightarrow> Result list" where
  "specLeaderboard allResults qid =
     foldr (insertBy precedes)
       (keepFirstBy specKey (sort_key date (filter (\<lambda>r. quizId r = qid) allResults))) []"





text \<open>The remaining time of the specification: \<open>(durationMinutes ?? 10) * 60\<close>.\<close>

definition specRemaining :: "Quiz \<Rightarrow> int" where
  "specRemaining quiz = (case durationMinutes quiz of None \<Rightarrow> 10 | Some n \<Rightarrow> n) * 60"

text \<open>
  The Top-3 badge of the specification: some quiz the student has attempted has an entry
  of the student, by normalized name, among the first three of its leaderboard.
\<close>

definition specTop3 :: "string \<Rightarrow> Result list \<Rightarrow> bool" where
  "specTop3 name allResults =
     list_ex (\<lambda>r. normalizedName (studentName r) = normalizedName name \<and>
                  list_ex (\<lambda>e. normalizedName (studentName e) = normalizedName name)
                    (take 3 (getLeaderboard allResults (quizId r))))
       allResults"

text \<open>The instant at which the local day numbered \<open>d\<close> starts at the fixed offset \<open>tz\<close>.\<close>

definition dayStart :: "int \<Rightarrow> int \<Rightarrow> int" where
  "dayStart tz d = d * msPerDay - tz"

section \<open>Example data\<close>

text \<open>
  The quiz of the end-to-end scenario (three questions, correct options 1, 0 and 2, one
  minute), a constructor for results, a student on the dashboard, and a small result
  collection with a repeated (name, score) pair.
\<close>

definition mkQuestion :: "int \<Rightarrow> Question" where
  "mkQuestion c =
     \<lparr>qtext = ''Choose the correct form.'', options = [''is'', ''are'', ''was'', ''were''],
      correctIndex = c, explanation = None\<rparr>"

definition exampleQuiz :: Quiz where
  "exampleQuiz =
     \<lparr>quiz_id = ''q1'', title = ''Tenses'', subject = None, difficulty = Easy,
      questions = [mkQuestion 1, mkQuestion 0, mkQuestion 2], durationMinutes = Some 1,
      starts = None, createdAt = 0\<rparr>"

definition mkResult :: "string \<Rightarrow> string \<Rightarrow> string \<Rightarrow> nat \<Rightarrow> nat \<Rightarrow> int \<Rightarrow> Result" where
  "mkResult rid qid name sc tot d =
     \<lparr>result_id = rid, quizId = qid, studentName = name, score = sc, total = tot, date = d\<rparr>"

definition studentAt :: "string \<Rightarrow> AppState" where
  "studentAt name =
     \<lparr>view = StudentDash, activeQuiz = None, studentNameSt = name, answers = [],
      currentResult = None, timeLeft = 0, toast = None, savedName = None\<rparr>"

text \<open>
  Names beyond ASCII: \<open>BOB\<close> between a no-break space and a space, and the name
  \<open>Elan\<close> with an acute accent on its first letter in three spellings.
\<close>

definition nbspBob :: string where
  "nbspBob = CHR 0xA0 # ''BOB ''"

definition elanUpper :: string where
  "elanUpper = CHR 0xC9 # ''LAN''"

definition elanMixed :: string where
  "elanMixed = CHR 0xC9 # ''lan''"

definition elanLower :: string where
  "elanLower = CHR 0xE9 # ''lan''"

definition blankName :: string where
  "blankName = [CHR '' '', CHR 0xA0, CHR 0x09]"

definition exampleResults :: "Result list" where
  "exampleResults =
     [mkResult ''r1'' ''q1'' ''Bob'' 2 3 10,
      mkResult ''r2'' ''q1'' nbspBob 2 3 20,
      mkResult ''r3'' ''q1'' ''Alice'' 3 3 30,
      mkResult ''r4'' ''q1'' ''Carl'' 2 3 5,
      mkResult ''r5'' ''q2'' ''Bob'' 12 12 1,
      mkResult ''r6'' ''q2'' elanUpper 5 12 2]"

definition perfectResults :: "Result list" where
  "perfectResults =
     [mkResult ''r1'' ''q1'' elanMixed 3 5 10, mkResult ''r2'' ''q2'' elanUpper 4 4 20]"

definition exampleAnswers :: "int list" where
  "exampleAnswers = [1, 0, - 1]"

definition exampleSession :: AppState where
  "exampleSession =
     (studentAt ''Asha'')\<lparr>view := StudentQuiz, activeQuiz := Some exampleQuiz,
       answers := exampleAnswers, timeLeft := 42\<rparr>"

definition exampleBoard :: "Result list" where
  "exampleBoard =
     [mkResult ''r3'' ''q1'' ''Alice'' 3 3 30,
      mkResult ''r4'' ''q1'' ''Carl'' 2 3 5,
      mkResult ''r1'' ''q1'' ''Bob'' 2 3 10]"

definition zeroMinuteQuiz :: Quiz where
  "zeroMinuteQuiz = exampleQuiz\<lparr>durationMinutes := Some 0\<rparr>"









definition untrimmedResults :: "Result list" where
  "untrimmedResults = [mkResult ''r1'' ''q1'' ''Bob'' 1 1 1000]"

section \<open>The built-ins at the edges of their tables\<close>

lemma toLowerChar_capitals:
  "toLowerChar CHR ''A'' = CHR ''a''" "toLowerChar CHR ''Z'' = CHR ''z''"
  "toLowerChar (CHR 0xC0) = CHR 0xE0" "toLowerChar (CHR 0xC9) = CHR 0xE9"
  "toLowerChar (CHR 0xD6) = CHR 0xF6" "toLowerChar (CHR 0xD8) = CHR 0xF8"
  "toLowerChar (CHR 0xDE) = CHR 0xFE"
  by (simp_all add: toLowerChar_def)

lemma toLowerChar_others:
  "toLowerChar CHR ''a'' = CHR ''a''" "toLowerChar CHR ''@'' = CHR ''@''"
  "toLowerChar CHR ''['' = CHR ''[''" "toLowerChar (CHR 0xB5) = CHR 0xB5"
  "toLowerChar (CHR 0xD7) = CHR 0xD7" "toLowerChar (CHR 0xDF) = CHR 0xDF"
  "toLowerChar (CHR 0xE9) = CHR 0xE9" "toLowerChar (CHR 0xFF) = CHR 0xFF"
  by (simp_all add: toLowerChar_def)

lemma isWhiteSpace_edges:
  "isWhiteSpace (CHR 0xA0)" "isWhiteSpace (CHR 0x09)" "isWhiteSpace (CHR 0x0D)"
  "\<not> isWhiteSpace (CHR 0x08)" "\<not> isWhiteSpace (CHR 0x0E)" "\<not> isWhiteSpace (CHR 0x1F)"
  "\<not> isWhiteSpace (CHR 0x85)" "\<not> isWhiteSpace (CHR 0xAD)"
  by (simp_all add: isWhiteSpace_def)

lemma trim_examples:
  "trim (CHR 0xA0 # ''Bob '') = ''Bob''" "trim [CHR 0xA0] = []" "trim ''a b'' = ''a b''"
  by (simp_all add: trim_def isWhiteSpace_def)

lemma toLowerCase_examples:
  "toLowerCase (CHR 0xC9 # ''LAN'') = CHR 0xE9 # ''lan''" "toLowerCase ''Bob-7'' = ''bob-7''"
  by (simp_all add: toLowerCase_def toLowerChar_def)

section \<open>Scoring: the loop counts the matching indices\<close>

lemma scoreLoop_count:
  "scoreLoop qs i ans sc =
     sc + card {k. k < length qs \<and> i + k < length ans \<and> ans ! (i + k) = correctIndex (qs ! k)}"
proof (induction qs arbitrary: i sc)
  case Nil
  then show ?case by simp
next
  case (Cons q qs)
  let ?P = "\<lambda>k. k < length (q # qs) \<and> i + k < length ans \<and> ans ! (i + k) = correctIndex ((q # qs) ! k)"
  let ?Q = "\<lambda>k. k < length qs \<and> Suc i + k < length ans \<and> ans ! (Suc i + k) = correctIndex (qs ! k)"
  have split: "{k. ?P k} = (if ?P 0 then {0} else {}) \<union> Suc ` {k. ?Q k}"
  proof (rule set_eqI)
    fix k show "k \<in> {k. ?P k} \<longleftrightarrow> k \<in> (if ?P 0 then {0} else {}) \<union> Suc ` {k. ?Q k}"
      by (cases k) auto
  qed
  have fin: "finite {k. ?Q k}" by simp
  have cardS: "card (Suc ` {k. ?Q k}) = card {k. ?Q k}"
    by (rule card_image) simp
  have "card {k. ?P k} = (if ?P 0 then 1 else 0) + card {k. ?Q k}"
    unfolding split using fin cardS by (auto simp: card_insert_if)
  moreover have "(arrayGet ans i = Some (correctIndex q)) = ?P 0"
    by (auto simp: arrayGet_def)
  ultimately show ?case
    using Cons.IH [of "Suc i"] by simp
qed

lemma computeScore_count:
  "computeScore quiz ans =
     card {i. i < length (questions quiz) \<and> i < length ans \<and>
              ans ! i = correctIndex (questions quiz ! i)}"
  by (simp add: computeScore_def scoreLoop_count)

lemma scoreLoop_le: "scoreLoop qs i ans sc \<le> sc + length qs"
proof (induction qs arbitrary: i sc)
  case Nil
  then show ?case by simp
next
  case (Cons q qs)
  show ?case
    using Cons.IH [of "Suc i" "Suc sc"] Cons.IH [of "Suc i" sc] by auto
qed

section \<open>Sorting, deduplication and ranking\<close>

subsection \<open>Stable sorting\<close>

lemma set_insertCmp: "set (insertCmp c x ys) = insert x (set ys)"
  by (induction ys) auto

lemma sortCmp_Nil: "sortCmp c [] = []"
  by (simp add: sortCmp_def)

lemma sortCmp_Cons: "sortCmp c (x # xs) = insertCmp c x (sortCmp c xs)"
  by (simp add: sortCmp_def)

lemma set_sortCmp: "set (sortCmp c xs) = set xs"
  by (induction xs) (simp_all add: sortCmp_Nil sortCmp_Cons set_insertCmp)

lemma length_insertCmp: "length (insertCmp c x ys) = Suc (length ys)"
  by (induction ys) auto

lemma length_sortCmp: "length (sortCmp c xs) = length xs"
  by (induction xs) (simp_all add: sortCmp_Nil sortCmp_Cons length_insertCmp)



lemma insertCmp_byDateAsc: "insertCmp byDateAsc x ys = insort_key date x ys"
  by (induction ys) (simp_all add: byDateAsc_def)

lemma sortCmp_byDateAsc: "sortCmp byDateAsc xs = sort_key date xs"
  by (induction xs) (simp_all add: sortCmp_Nil sortCmp_Cons insertCmp_byDateAsc)

lemma sorted_sortCmp_byDateAsc: "sorted (map date (sortCmp byDateAsc xs))"
  by (simp add: sortCmp_byDateAsc)

lemma byScoreThenDate_le: "(byScoreThenDate a b \<le> 0) = precedes a b"
  by (auto simp: byScoreThenDate_def precedes_def)

lemma insertCmp_byScoreThenDate: "insertCmp byScoreThenDate x ys = insertBy precedes x ys"
  by (induction ys) (simp_all add: byScoreThenDate_le)

lemma sortCmp_byScoreThenDate: "sortCmp byScoreThenDate xs = foldr (insertBy precedes) xs []"
  by (induction xs) (simp_all add: sortCmp_Nil sortCmp_Cons insertCmp_byScoreThenDate)

lemma precedes_trans: "precedes a b \<Longrightarrow> precedes b c \<Longrightarrow> precedes a c"
  by (auto simp: precedes_def)

lemma precedes_total: "precedes a b \<or> precedes b a"
  by (auto simp: precedes_def)

lemma sorted_insertBy_precedes:
  "sorted_wrt precedes ys \<Longrightarrow> sorted_wrt precedes (insertBy precedes x ys)"
proof (induction ys)
  case Nil
  then show ?case by simp
next
  case (Cons y ys)
  show ?case
  proof (cases "precedes x y")
    case True
    then have "\<forall>z\<in>set ys. precedes x z"
      using Cons.prems by (auto intro: precedes_trans)
    with True Cons.prems show ?thesis by simp
  next
    case False
    then have yx: "precedes y x" using precedes_total by blast
    have "set (insertBy precedes x ys) = insert x (set ys)"
      by (induction ys) auto
    with False yx Cons show ?thesis by auto
  qed
qed

lemma sorted_sortCmp_byScoreThenDate: "sorted_wrt precedes (sortCmp byScoreThenDate xs)"
  unfolding sortCmp_byScoreThenDate
  by (induction xs) (simp_all add: sorted_insertBy_precedes)

subsection \<open>Deduplication\<close>

lemma digitChar_not_dash: "digitChar d \<noteq> CHR ''-''"
  by (simp add: digitChar_def)

lemma dash_notin_numberToString: "CHR ''-'' \<notin> set (numberToString n)"
proof (induction n rule: numberToString.induct)
  case (1 n)
  show ?case
  proof (cases "n < 10")
    case True
    then show ?thesis
      using digitChar_not_dash [of n] by (subst numberToString.simps) auto
  next
    case False
    then show ?thesis
      using "1" digitChar_not_dash [of "n mod 10"] by (subst numberToString.simps) auto
  qed
qed

lemma of_char_digitChar: "d < 10 \<Longrightarrow> (of_char (digitChar d) :: nat) = 48 + d"
  unfolding digitChar_def by (simp split: if_splits)

lemma digitChar_inj:
  assumes "a < 10" and "b < 10" and "digitChar a = digitChar b"
  shows "a = b"
proof -
  have "(of_char (digitChar a) :: nat) = of_char (digitChar b)"
    using assms(3) by simp
  then show ?thesis
    using assms(1,2) by (simp add: of_char_digitChar)
qed

lemma numberToString_not_Nil: "numberToString n \<noteq> []"
  by (subst numberToString.simps) simp

lemma numberToString_inj: "numberToString n = numberToString m \<Longrightarrow> n = m"
proof (induction n arbitrary: m rule: numberToString.induct)
  case (1 n)
  show ?case
  proof (cases "n < 10")
    case n: True
    show ?thesis
    proof (cases "m < 10")
      case True
      with n "1.prems" show ?thesis
        by (simp add: numberToString.simps [of n] numberToString.simps [of m] digitChar_inj)
    next
      case False
      with n "1.prems" numberToString_not_Nil [of "m div 10"] show ?thesis
        by (simp add: numberToString.simps [of n] numberToString.simps [of m])
    qed
  next
    case n: False
    show ?thesis
    proof (cases "m < 10")
      case True
      with n "1.prems" numberToString_not_Nil [of "n div 10"] show ?thesis
        by (simp add: numberToString.simps [of n] numberToString.simps [of m])
    next
      case False
      with n "1.prems" have eq: "numberToString (n div 10) = numberToString (m div 10)"
        and d: "digitChar (n mod 10) = digitChar (m mod 10)"
        by (simp_all add: numberToString.simps [of n] numberToString.simps [of m])
      from eq n have "n div 10 = m div 10" by (rule "1.IH" [rotated])
      moreover from d have "n mod 10 = m mod 10" by (intro digitChar_inj) simp_all
      ultimately show ?thesis by (metis div_mult_mod_eq)
    qed
  qed
qed

lemma append_dash_inj:
  assumes "xs @ CHR ''-'' # ds = ys @ CHR ''-'' # es"
    and "CHR ''-'' \<notin> set ds" and "CHR ''-'' \<notin> set es"
  shows "xs = ys \<and> ds = es"
proof -
  have t: "\<And>zs fs. CHR ''-'' \<notin> set fs \<Longrightarrow>
      takeWhile (\<lambda>c. c \<noteq> CHR ''-'') (rev (zs @ CHR ''-'' # fs)) = rev fs"
    by (auto simp: takeWhile_tail)
  have "rev ds = rev es"
    using t [OF assms(2), of xs] t [OF assms(3), of ys] assms(1) by simp
  then have "ds = es" by simp
  with assms(1) show ?thesis by simp
qed

lemma dedupKey_eq: "(dedupKey a = dedupKey b) = (specKey a = specKey b)"
proof
  assume "dedupKey a = dedupKey b"
  then have "toLowerCase (trim (studentName a)) @ CHR ''-'' # numberToString (score a) =
      toLowerCase (trim (studentName b)) @ CHR ''-'' # numberToString (score b)"
    by (simp add: dedupKey_def)
  then have "toLowerCase (trim (studentName a)) = toLowerCase (trim (studentName b)) \<and>
      numberToString (score a) = numberToString (score b)"
    by (rule append_dash_inj) (rule dash_notin_numberToString)+
  then show "specKey a = specKey b"
    by (simp add: specKey_def normalizedName_def numberToString_inj)
next
  assume "specKey a = specKey b"
  then show "dedupKey a = dedupKey b"
    by (simp add: dedupKey_def specKey_def normalizedName_def)
qed

lemma keepFirstBy_cong:
  "(\<And>a b. (k1 a = k1 b) = (k2 a = k2 b)) \<Longrightarrow> keepFirstBy k1 xs = keepFirstBy k2 xs"
  by (induction k1 xs rule: keepFirstBy.induct) simp_all

lemma fold_dedupStep:
  "fold dedupStep xs (seen, acc) =
     (seen \<union> dedupKey ` set xs,
      acc @ keepFirstBy dedupKey (filter (\<lambda>r. dedupKey r \<notin> seen) xs))"
proof (induction xs arbitrary: seen acc)
  case Nil
  then show ?case by simp
next
  case (Cons x xs)
  show ?case
  proof (cases "dedupKey x \<in> seen")
    case True
    then show ?thesis
      using Cons.IH [of seen acc] by (auto simp: dedupStep_def)
  next
    case False
    have f: "filter (\<lambda>r. dedupKey r \<notin> insert (dedupKey x) seen) xs =
        filter (\<lambda>y. dedupKey y \<noteq> dedupKey x) (filter (\<lambda>r. dedupKey r \<notin> seen) xs)"
      by (induction xs) auto
    have "fold dedupStep (x # xs) (seen, acc) =
        fold dedupStep xs (insert (dedupKey x) seen, acc @ [x])"
      using False by (simp add: dedupStep_def)
    also have "\<dots> = (insert (dedupKey x) seen \<union> dedupKey ` set xs,
        (acc @ [x]) @ keepFirstBy dedupKey
          (filter (\<lambda>r. dedupKey r \<notin> insert (dedupKey x) seen) xs))"
      by (rule Cons.IH)
    also have "\<dots> = (seen \<union> dedupKey ` set (x # xs),
        acc @ keepFirstBy dedupKey (filter (\<lambda>r. dedupKey r \<notin> seen) (x # xs)))"
      unfolding f using False by (simp del: filter_filter)
    finally show ?thesis .
  qed
qed

lemma dedupLoop_keepFirstBy: "dedupLoop xs = keepFirstBy specKey xs"
proof -
  have "dedupLoop xs = keepFirstBy dedupKey xs"
    by (simp add: dedupLoop_def fold_dedupStep)
  also have "\<dots> = keepFirstBy specKey xs"
    by (rule keepFirstBy_cong) (rule dedupKey_eq)
  finally show ?thesis .
qed

lemma set_keepFirstBy_subset: "set (keepFirstBy k xs) \<subseteq> set xs"
  by (induction k xs rule: keepFirstBy.induct) auto

lemma keys_keepFirstBy: "k ` set (keepFirstBy k xs) = k ` set xs"
  by (induction k xs rule: keepFirstBy.induct) auto

lemma distinct_keys_keepFirstBy: "distinct (map k (keepFirstBy k xs))"
proof (induction k xs rule: keepFirstBy.induct)
  case (1 k)
  then show ?case by simp
next
  case (2 k x xs)
  have "k x \<notin> k ` set (keepFirstBy k (filter (\<lambda>y. k y \<noteq> k x) xs))"
    unfolding keys_keepFirstBy by auto
  with 2 show ?case by simp
qed

lemma sorted_keepFirstBy:
  "sorted (map f xs) \<Longrightarrow> sorted (map f (keepFirstBy k xs))"
proof (induction k xs rule: keepFirstBy.induct)
  case (1 k)
  then show ?case by simp
next
  case (2 k x xs)
  from "2.prems" have s: "sorted (map f xs)" and le: "\<forall>y\<in>set xs. f x \<le> f y"
    by simp_all
  from s have "sorted (map f (filter (\<lambda>y. k y \<noteq> k x) xs))"
    by (rule sorted_filter)
  then have "sorted (map f (keepFirstBy k (filter (\<lambda>y. k y \<noteq> k x) xs)))"
    by (rule "2.IH")
  moreover have "\<forall>y\<in>set (keepFirstBy k (filter (\<lambda>y. k y \<noteq> k x) xs)). f x \<le> f y"
    using le set_keepFirstBy_subset [of k "filter (\<lambda>y. k y \<noteq> k x) xs"] by auto
  ultimately show ?case by simp
qed

lemma keepFirstBy_earliest:
  "sorted (map f xs) \<Longrightarrow> e \<in> set (keepFirstBy k xs) \<Longrightarrow> r \<in> set xs \<Longrightarrow> k r = k e
     \<Longrightarrow> f e \<le> f r"
proof (induction k xs rule: keepFirstBy.induct)
  case (1 k)
  then show ?case by simp
next
  case (2 k x xs)
  from "2.prems"(1) have s: "sorted (map f xs)" and le: "\<forall>y\<in>set xs. f x \<le> f y"
    by simp_all
  show ?case
  proof (cases "e = x")
    case True
    with le "2.prems"(3) show ?thesis by auto
  next
    case False
    with "2.prems"(2) have e: "e \<in> set (keepFirstBy k (filter (\<lambda>y. k y \<noteq> k x) xs))"
      by simp
    have "e \<in> set (filter (\<lambda>y. k y \<noteq> k x) xs)"
      by (rule subsetD [OF set_keepFirstBy_subset e])
    then have ke: "k e \<noteq> k x" by simp
    then have krx: "k r \<noteq> k x" by (simp add: "2.prems"(4))
    then have "r \<noteq> x" by blast
    with "2.prems"(3) have "r \<in> set xs" by simp
    with krx have r: "r \<in> set (filter (\<lambda>y. k y \<noteq> k x) xs)"
      by simp
    from s have "sorted (map f (filter (\<lambda>y. k y \<noteq> k x) xs))"
      by (rule sorted_filter)
    then show ?thesis using e r "2.prems"(4) by (rule "2.IH")
  qed
qed

lemma insertCmp_agree:
  "\<forall>y\<in>set ys. date x \<le> date y \<Longrightarrow>
     insertCmp byScoreDesc x ys = insertCmp byScoreThenDate x ys"
  by (induction ys) (auto simp: byScoreDesc_def byScoreThenDate_def)

lemma sortCmp_agree:
  "sorted (map date xs) \<Longrightarrow> sortCmp byScoreDesc xs = sortCmp byScoreThenDate xs"
proof (induction xs)
  case Nil
  then show ?case by (simp add: sortCmp_Nil)
next
  case (Cons x xs)
  then have "\<forall>y\<in>set (sortCmp byScoreThenDate xs). date x \<le> date y"
    by (simp add: set_sortCmp)
  then show ?case
    using Cons by (simp add: sortCmp_Cons insertCmp_agree)
qed

lemma isTop3Sorted_eq: "isTop3Sorted qid allResults = getLeaderboard allResults qid"
  unfolding isTop3Sorted_def getLeaderboard_def Let_def dedupLoop_keepFirstBy
  by (intro sortCmp_agree sorted_keepFirstBy sorted_sortCmp_byDateAsc)

lemma getLeaderboard_spec: "getLeaderboard allResults qid = specLeaderboard allResults qid"
  by (simp add: getLeaderboard_def specLeaderboard_def dedupLoop_keepFirstBy
      sortCmp_byDateAsc sortCmp_byScoreThenDate)

lemma findIndexFrom_ge: "0 \<le> i \<Longrightarrow> findIndexFrom p xs i = -1 \<or> i \<le> findIndexFrom p xs i"
proof (induction xs arbitrary: i)
  case Nil
  then show ?case by simp
next
  case (Cons x xs)
  from Cons.prems have "0 \<le> i + 1" by simp
  from Cons.IH [OF this] show ?case by auto
qed

lemma findIndexFrom_take:
  "0 \<le> i \<Longrightarrow>
     (findIndexFrom p xs i \<noteq> -1 \<and> findIndexFrom p xs i < i + int n) = list_ex p (take n xs)"
proof (induction xs arbitrary: i n)
  case Nil
  then show ?case by simp
next
  case (Cons x xs)
  show ?case
  proof (cases n)
    case 0
    with Cons.prems findIndexFrom_ge [of i p "x # xs"] show ?thesis by auto
  next
    case (Suc m)
    with Cons.prems Cons.IH [of "i + 1" m] findIndexFrom_ge [of "i + 1" p xs]
    show ?thesis by auto
  qed
qed

lemma isTop3_take:
  "isTop3 name qid allResults =
     list_ex (sameStudent name) (take 3 (getLeaderboard allResults qid))"
  using findIndexFrom_take [of 0 "sameStudent name" "getLeaderboard allResults qid" 3]
  by (simp add: isTop3_def findIndex_def isTop3Sorted_eq Let_def)

lemma list_ex_take:
  "list_ex p (take n xs) = (\<exists>i<n. i < length xs \<and> p (xs ! i))"
proof
  assume "list_ex p (take n xs)"
  then obtain i where "i < length (take n xs)" and "p (take n xs ! i)"
    by (auto simp: list_ex_iff in_set_conv_nth)
  then show "\<exists>i<n. i < length xs \<and> p (xs ! i)"
    by (intro exI [of _ i]) simp
next
  assume "\<exists>i<n. i < length xs \<and> p (xs ! i)"
  then obtain i where i: "i < n" "i < length xs" "p (xs ! i)" by blast
  then have "take n xs ! i \<in> set (take n xs)"
    by (intro nth_mem) simp
  with i show "list_ex p (take n xs)"
    by (auto simp: list_ex_iff)
qed

lemma set_getLeaderboard_subset:
  "set (getLeaderboard allResults qid) \<subseteq> {r \<in> set allResults. quizId r = qid}"
  using set_keepFirstBy_subset [of specKey "sortCmp byDateAsc (filter (\<lambda>r. quizId r = qid) allResults)"]
  by (auto simp: getLeaderboard_def dedupLoop_keepFirstBy set_sortCmp)

lemma distinct_map_insertCmp:
  "distinct (map f (insertCmp c x ys)) = (f x \<notin> f ` set ys \<and> distinct (map f ys))"
  by (induction ys) (auto simp: set_insertCmp)

lemma distinct_map_sortCmp: "distinct (map f (sortCmp c xs)) = distinct (map f xs)"
  by (induction xs) (simp_all add: sortCmp_Nil sortCmp_Cons distinct_map_insertCmp set_sortCmp)

lemma distinct_keys_getLeaderboard: "distinct (map specKey (getLeaderboard allResults qid))"
  by (simp add: getLeaderboard_def dedupLoop_keepFirstBy distinct_map_sortCmp
      distinct_keys_keepFirstBy)

lemma getLeaderboard_survivor:
  assumes "r \<in> set allResults" and "quizId r = qid"
  shows "\<exists>e\<in>set (getLeaderboard allResults qid). specKey e = specKey r"
proof -
  let ?xs = "sortCmp byDateAsc (filter (\<lambda>r. quizId r = qid) allResults)"
  from assms have "specKey r \<in> specKey ` set ?xs"
    by (simp add: set_sortCmp)
  then have "specKey r \<in> specKey ` set (keepFirstBy specKey ?xs)"
    by (simp only: keys_keepFirstBy)
  then have "specKey r \<in> specKey ` set (getLeaderboard allResults qid)"
    by (simp add: getLeaderboard_def dedupLoop_keepFirstBy set_sortCmp)
  then show ?thesis by auto
qed

lemma getLeaderboard_earliest:
  assumes "e \<in> set (getLeaderboard allResults qid)" and "r \<in> set allResults"
    and "quizId r = qid" and "specKey r = specKey e"
  shows "date e \<le> date r"
proof -
  let ?xs = "sortCmp byDateAsc (filter (\<lambda>r. quizId r = qid) allResults)"
  have "sorted (map date ?xs)" by (rule sorted_sortCmp_byDateAsc)
  moreover have "e \<in> set (keepFirstBy specKey ?xs)"
    using assms(1) by (simp add: getLeaderboard_def dedupLoop_keepFirstBy set_sortCmp)
  moreover have "r \<in> set ?xs"
    using assms(2,3) by (simp add: set_sortCmp)
  ultimately show ?thesis using assms(4) by (rule keepFirstBy_earliest)
qed

section \<open>Streak: timestamps and calendar days\<close>

lemma msPerDay_pos: "0 < msPerDay"
  by (simp add: msPerDay_def)





lemma dayStart_less: "(dayStart tz a < dayStart tz b) = (a < b)"
  using msPerDay_pos by (simp add: dayStart_def)



lemma dayStart_pred: "dayStart tz d - msPerDay = dayStart tz (d - 1)"
  by (simp add: dayStart_def algebra_simps)













section \<open>Session: start, ticks and expiry\<close>

lemma computeScore_unanswered:
  assumes "\<forall>q\<in>set (questions quiz). 0 \<le> correctIndex q"
  shows "computeScore quiz (replicate n (- 1)) = 0"
proof -
  have "{i. i < length (questions quiz) \<and> i < length (replicate n (- 1 :: int)) \<and>
      replicate n (- 1) ! i = correctIndex (questions quiz ! i)} = {}"
    using assms by (auto dest!: nth_mem)
  then show ?thesis by (simp add: computeScore_count)
qed

lemma tick_running:
  "view s = StudentQuiz \<Longrightarrow> 1 < timeLeft s \<Longrightarrow>
     tick now written s = s\<lparr>timeLeft := timeLeft s - 1\<rparr>"
  by (simp add: tick_def timerEffect_def)

lemma tick_expiry:
  "view s = StudentQuiz \<Longrightarrow> timeLeft s = 1 \<Longrightarrow> activeQuiz s = Some quiz \<Longrightarrow>
     tick now written s = submitQuiz now written (s\<lparr>timeLeft := 0\<rparr>)"
  by (simp add: tick_def timerEffect_def)

lemma ticks_running:
  "view s = StudentQuiz \<Longrightarrow> int k < timeLeft s \<Longrightarrow>
     (tick now written ^^ k) s = s\<lparr>timeLeft := timeLeft s - int k\<rparr>"
proof (induction k)
  case 0
  then show ?case by simp
next
  case (Suc k)
  then have "(tick now written ^^ k) s = s\<lparr>timeLeft := timeLeft s - int k\<rparr>"
    by simp
  moreover have "tick now written (s\<lparr>timeLeft := timeLeft s - int k\<rparr>) =
      s\<lparr>timeLeft := timeLeft s - int k, timeLeft := timeLeft s - int k - 1\<rparr>"
    using Suc.prems tick_running [of "s\<lparr>timeLeft := timeLeft s - int k\<rparr>" now written]
    by simp
  ultimately show ?case by (simp add: algebra_simps)
qed

lemma ticks_expiry:
  assumes "view s = StudentQuiz" and "timeLeft s = int (Suc k)" and "activeQuiz s = Some quiz"
  shows "(tick now written ^^ Suc k) s = submitQuiz now written (s\<lparr>timeLeft := 0\<rparr>)"
proof -
  have "(tick now written ^^ k) s = s\<lparr>timeLeft := 1\<rparr>"
    using ticks_running [of s k now written] assms(1,2) by simp
  then show ?thesis
    using tick_expiry [of "s\<lparr>timeLeft := 1\<rparr>" quiz now written] assms(1,3) by simp
qed

section \<open>Claims\<close>


text \<open>
  C1. The score computed at finalization is the number of question indices \<open>i\<close> with
  \<open>answers[i] = questions[i].correctIndex\<close>; it lies between 0 (it is a natural number)
  and the number of questions; on a quiz whose \<open>correctIndex\<close> values are not negative,
  only answered slots (other than -1) are counted; and the result that a successful
  submission produces carries this score and \<open>total = questions.length\<close>.
\<close>

theorem C1_score_counts_matching_answers:
  "computeScore quiz ans =
     card {i. i < length (questions quiz) \<and> i < length ans \<and>
              ans ! i = correctIndex (questions quiz ! i)}
   \<and> computeScore quiz ans \<le> length (questions quiz)
   \<and> ((\<forall>q\<in>set (questions quiz). 0 \<le> correctIndex q) \<longrightarrow>
        computeScore quiz ans =
          card {i. i < length (questions quiz) \<and> i < length ans \<and> ans ! i \<noteq> - 1 \<and>
                   ans ! i = correctIndex (questions quiz ! i)})
   \<and> (activeQuiz s = Some quiz \<longrightarrow>
        (\<exists>r. currentResult (submitQuiz now (Inr docId) s) = Some r \<and>
             score r = computeScore quiz (answers s) \<and> total r = length (questions quiz)))"
proof (intro conjI impI)
  show "computeScore quiz ans =
     card {i. i < length (questions quiz) \<and> i < length ans \<and>
              ans ! i = correctIndex (questions quiz ! i)}"
    by (rule computeScore_count)
  show "computeScore quiz ans \<le> length (questions quiz)"
    using scoreLoop_le [of "questions quiz" 0 ans 0] by (simp add: computeScore_def)
next
  assume inv: "\<forall>q\<in>set (questions quiz). 0 \<le> correctIndex q"
  have "{i. i < length (questions quiz) \<and> i < length ans \<and>
            ans ! i = correctIndex (questions quiz ! i)} =
        {i. i < length (questions quiz) \<and> i < length ans \<and> ans ! i \<noteq> - 1 \<and>
            ans ! i = correctIndex (questions quiz ! i)}"
  proof -
    have "0 \<le> correctIndex (questions quiz ! i)" if "i < length (questions quiz)" for i
      using inv that by simp
    then show ?thesis by force
  qed
  then show "computeScore quiz ans =
      card {i. i < length (questions quiz) \<and> i < length ans \<and> ans ! i \<noteq> - 1 \<and>
               ans ! i = correctIndex (questions quiz ! i)}"
    by (simp add: computeScore_count)
next
  assume "activeQuiz s = Some quiz"
  then show "\<exists>r. currentResult (submitQuiz now (Inr docId) s) = Some r \<and>
      score r = computeScore quiz (answers s) \<and> total r = length (questions quiz)"
    by (simp add: submitQuiz_def)
qed

theorem C1_witness:
  "list_all (\<lambda>q. 0 \<le> correctIndex q) (questions exampleQuiz)
   \<and> activeQuiz exampleSession = Some exampleQuiz
   \<and> computeScore exampleQuiz exampleAnswers = 2
   \<and> card {i. i < length (questions exampleQuiz) \<and> i < length exampleAnswers \<and>
              exampleAnswers ! i \<noteq> - 1 \<and>
              exampleAnswers ! i = correctIndex (questions exampleQuiz ! i)} = 2
   \<and> (\<exists>r. currentResult (submitQuiz 1000 (Inr ''doc1'') exampleSession) = Some r \<and>
            score r = 2 \<and> total r = 3)"
proof -
  have inv: "\<forall>q\<in>set (questions exampleQuiz). 0 \<le> correctIndex q"
    by (simp add: exampleQuiz_def mkQuestion_def)
  have sc: "computeScore exampleQuiz exampleAnswers = 2"
    by (simp add: computeScore_def exampleQuiz_def exampleAnswers_def mkQuestion_def arrayGet_def)
  have len: "length (questions exampleQuiz) = 3"
    by (simp add: exampleQuiz_def)
  have act: "activeQuiz exampleSession = Some exampleQuiz"
    and ans: "answers exampleSession = exampleAnswers"
    by (simp_all add: exampleSession_def)
  note c1 = C1_score_counts_matching_answers
    [of exampleQuiz exampleAnswers exampleSession 1000 "''doc1''"]
  from c1 inv have "computeScore exampleQuiz exampleAnswers =
      card {i. i < length (questions exampleQuiz) \<and> i < length exampleAnswers \<and>
               exampleAnswers ! i \<noteq> - 1 \<and>
               exampleAnswers ! i = correctIndex (questions exampleQuiz ! i)}"
    by blast
  with sc have cd: "card {i. i < length (questions exampleQuiz) \<and> i < length exampleAnswers \<and>
      exampleAnswers ! i \<noteq> - 1 \<and>
      exampleAnswers ! i = correctIndex (questions exampleQuiz ! i)} = 2"
    by simp
  from c1 act have "\<exists>r. currentResult (submitQuiz 1000 (Inr ''doc1'') exampleSession) = Some r \<and>
      score r = computeScore exampleQuiz (answers exampleSession) \<and>
      total r = length (questions exampleQuiz)"
    by blast
  then have "\<exists>r. currentResult (submitQuiz 1000 (Inr ''doc1'') exampleSession) = Some r \<and>
      score r = 2 \<and> total r = 3"
    using sc len ans by simp
  moreover have "list_all (\<lambda>q. 0 \<le> correctIndex q) (questions exampleQuiz)"
    using inv by (simp add: list_all_iff)
  ultimately show ?thesis using act sc cd by blast
qed

text \<open>
  C9. The Grammar Master badge holds exactly when some result whose name equals the given
  name up to letter case has \<open>score = total\<close>; the results with score 3 of 5 and 4 of 4
  give the badge.
\<close>

theorem C9_grammar_master_iff_perfect_result:
  "hasGrammarMaster name allResults =
     (\<exists>r\<in>set allResults. toLowerCase (studentName r) = toLowerCase name \<and> score r = total r)
   \<and> (toLowerCase (studentName r1) = toLowerCase name \<and>
       toLowerCase (studentName r2) = toLowerCase name \<and>
       score r1 = 3 \<and> total r1 = 5 \<and> score r2 = 4 \<and> total r2 = 4 \<longrightarrow>
       hasGrammarMaster name [r1, r2])"
  by (auto simp: hasGrammarMaster_def sameStudent_def list_ex_iff)

theorem C9_witness:
  "toLowerCase elanMixed = toLowerCase elanLower
   \<and> toLowerCase elanUpper = toLowerCase elanLower
   \<and> hasGrammarMaster elanLower perfectResults
   \<and> (\<exists>r\<in>set perfectResults.
         toLowerCase (studentName r) = toLowerCase elanLower \<and> score r = total r)"
proof -
  let ?r1 = "mkResult ''r1'' ''q1'' elanMixed 3 5 10"
  let ?r2 = "mkResult ''r2'' ''q2'' elanUpper 4 4 20"
  have n1: "toLowerCase elanMixed = toLowerCase elanLower"
    and n2: "toLowerCase elanUpper = toLowerCase elanLower"
    by code_simp+
  have h: "toLowerCase (studentName ?r1) = toLowerCase elanLower \<and>
      toLowerCase (studentName ?r2) = toLowerCase elanLower \<and>
      score ?r1 = 3 \<and> total ?r1 = 5 \<and> score ?r2 = 4 \<and> total ?r2 = 4"
    using n1 n2 by (simp add: mkResult_def)
  have p: "perfectResults = [?r1, ?r2]"
    by (simp add: perfectResults_def)
  from C9_grammar_master_iff_perfect_result [of elanLower perfectResults ?r1 ?r2,
      THEN conjunct2, THEN mp, OF h]
  have b: "hasGrammarMaster elanLower perfectResults"
    by (simp only: p)
  with C9_grammar_master_iff_perfect_result [of elanLower perfectResults, THEN conjunct1]
  have "\<exists>r\<in>set perfectResults.
      toLowerCase (studentName r) = toLowerCase elanLower \<and> score r = total r"
    by simp
  with n1 n2 b show ?thesis by simp
qed

text \<open>
  C10. The sequence that \<open>isTop3\<close> ranks (a stable sort by descending score of the
  deduplicated list in ascending date order) is the sequence that \<open>getLeaderboard\<close>
  returns (descending score, ties by ascending date), element for element.
\<close>

theorem C10_isTop3_ranking_is_leaderboard:
  "isTop3Sorted qid allResults = getLeaderboard allResults qid"
  by (rule isTop3Sorted_eq)

text \<open>
  C2. The leaderboard of a quiz is what the described algorithm computes: the results of
  that quiz, sorted by ascending timestamp, the first result of each pair (trimmed
  lowercased name, score) kept, the rest ordered by descending score with ties in
  ascending timestamp order; every entry precedes the entries after it in that order; and
  the rank shown for the entry at index \<open>i\<close> is \<open>i + 1\<close>.
\<close>

theorem C2_leaderboard_follows_algorithm:
  "getLeaderboard allResults qid = specLeaderboard allResults qid
   \<and> sorted_wrt precedes (getLeaderboard allResults qid)
   \<and> (\<forall>i<length (getLeaderboard allResults qid).
         withRanks (getLeaderboard allResults qid) ! i =
           (i + 1, getLeaderboard allResults qid ! i))"
proof (intro conjI allI impI)
  show "getLeaderboard allResults qid = specLeaderboard allResults qid"
    by (rule getLeaderboard_spec)
  show "sorted_wrt precedes (getLeaderboard allResults qid)"
    by (simp add: getLeaderboard_def sorted_sortCmp_byScoreThenDate)
next
  fix i
  assume "i < length (getLeaderboard allResults qid)"
  then show "withRanks (getLeaderboard allResults qid) ! i =
      (i + 1, getLeaderboard allResults qid ! i)"
    by (simp add: withRanks_def nth_append del: upt_Suc)
qed

theorem C2_witness:
  "getLeaderboard exampleResults ''q1'' = exampleBoard
   \<and> specLeaderboard exampleResults ''q1'' = exampleBoard
   \<and> sorted_wrt precedes exampleBoard
   \<and> 2 < length (getLeaderboard exampleResults ''q1'')
   \<and> withRanks (getLeaderboard exampleResults ''q1'') ! 2 = (3, mkResult ''r1'' ''q1'' ''Bob'' 2 3 10)"
proof -
  have b: "getLeaderboard exampleResults ''q1'' = exampleBoard"
    by code_simp
  have l: "2 < length (getLeaderboard exampleResults ''q1'')"
    by (simp add: b exampleBoard_def)
  note c2 = C2_leaderboard_follows_algorithm [of exampleResults "''q1''"]
  from c2 b have "specLeaderboard exampleResults ''q1'' = exampleBoard"
    by simp
  moreover from c2 b have "sorted_wrt precedes exampleBoard"
    by simp
  moreover from c2 l have "withRanks (getLeaderboard exampleResults ''q1'') ! 2 =
      (2 + 1, getLeaderboard exampleResults ''q1'' ! 2)"
    by blast
  then have "withRanks (getLeaderboard exampleResults ''q1'') ! 2 =
      (3, mkResult ''r1'' ''q1'' ''Bob'' 2 3 10)"
    by (simp add: b exampleBoard_def)
  ultimately show ?thesis using b l by blast
qed

text \<open>
  C8. In the leaderboard of a quiz no two entries have the same normalized name and the
  same score; every entry is a result of that quiz; every result of that quiz has an
  entry with its normalized name and its score that is not later than it; an entry is
  not later than any result of that quiz with its normalized name and its score; and of
  two results of the quiz with the same normalized name and score, the one with the
  later timestamp is not in the leaderboard.
\<close>

theorem C8_only_earliest_duplicate_survives:
  "distinct (map specKey (getLeaderboard allResults qid))
   \<and> set (getLeaderboard allResults qid) \<subseteq> {r \<in> set allResults. quizId r = qid}
   \<and> (\<forall>r\<in>set allResults. quizId r = qid \<longrightarrow>
         (\<exists>e\<in>set (getLeaderboard allResults qid).
            normalizedName (studentName e) = normalizedName (studentName r) \<and>
            score e = score r \<and> date e \<le> date r))
   \<and> (\<forall>e\<in>set (getLeaderboard allResults qid). \<forall>r\<in>set allResults.
         quizId r = qid \<and> normalizedName (studentName r) = normalizedName (studentName e) \<and>
         score r = score e \<longrightarrow> date e \<le> date r)
   \<and> (\<forall>a\<in>set allResults. \<forall>b\<in>set allResults.
         quizId a = qid \<and> quizId b = qid \<and>
         normalizedName (studentName a) = normalizedName (studentName b) \<and>
         score a = score b \<and> date a < date b \<longrightarrow>
         b \<notin> set (getLeaderboard allResults qid))"
proof -
  have p1: "distinct (map specKey (getLeaderboard allResults qid))"
    by (rule distinct_keys_getLeaderboard)
  have p2: "set (getLeaderboard allResults qid) \<subseteq> {r \<in> set allResults. quizId r = qid}"
    by (rule set_getLeaderboard_subset)
  have p3: "\<forall>r\<in>set allResults. quizId r = qid \<longrightarrow>
      (\<exists>e\<in>set (getLeaderboard allResults qid).
         normalizedName (studentName e) = normalizedName (studentName r) \<and>
         score e = score r \<and> date e \<le> date r)"
  proof (intro ballI impI)
    fix r
    assume r: "r \<in> set allResults" and q: "quizId r = qid"
    then obtain e where e: "e \<in> set (getLeaderboard allResults qid)"
      and k: "specKey e = specKey r"
      using getLeaderboard_survivor by blast
    from e r q k have "date e \<le> date r"
      by (intro getLeaderboard_earliest [of e allResults qid r]) simp_all
    with e k show "\<exists>e\<in>set (getLeaderboard allResults qid).
        normalizedName (studentName e) = normalizedName (studentName r) \<and>
        score e = score r \<and> date e \<le> date r"
      by (auto simp: specKey_def)
  qed
  have p4: "\<forall>e\<in>set (getLeaderboard allResults qid). \<forall>r\<in>set allResults.
      quizId r = qid \<and> normalizedName (studentName r) = normalizedName (studentName e) \<and>
      score r = score e \<longrightarrow> date e \<le> date r"
  proof (intro ballI impI)
    fix e r
    assume "e \<in> set (getLeaderboard allResults qid)" and "r \<in> set allResults"
      and "quizId r = qid \<and> normalizedName (studentName r) = normalizedName (studentName e) \<and>
        score r = score e"
    then show "date e \<le> date r"
      by (intro getLeaderboard_earliest [of e allResults qid r]) (simp_all add: specKey_def)
  qed
  have p5: "\<forall>a\<in>set allResults. \<forall>b\<in>set allResults.
      quizId a = qid \<and> quizId b = qid \<and>
      normalizedName (studentName a) = normalizedName (studentName b) \<and>
      score a = score b \<and> date a < date b \<longrightarrow>
      b \<notin> set (getLeaderboard allResults qid)"
  proof (intro ballI impI)
    fix a b
    assume a: "a \<in> set allResults" and b: "b \<in> set allResults"
      and h: "quizId a = qid \<and> quizId b = qid \<and>
        normalizedName (studentName a) = normalizedName (studentName b) \<and>
        score a = score b \<and> date a < date b"
    show "b \<notin> set (getLeaderboard allResults qid)"
    proof
      assume "b \<in> set (getLeaderboard allResults qid)"
      then have "date b \<le> date a"
        using a h
        by (intro getLeaderboard_earliest [of b allResults qid a]) (simp_all add: specKey_def)
      with h show False by simp
    qed
  qed
  from p1 p2 p3 p4 p5 show ?thesis by (intro conjI)
qed

theorem C8_witness:
  "mkResult ''r1'' ''q1'' ''Bob'' 2 3 10 \<in> set exampleResults
   \<and> mkResult ''r2'' ''q1'' nbspBob 2 3 20 \<in> set exampleResults
   \<and> normalizedName ''Bob'' = normalizedName nbspBob
   \<and> mkResult ''r1'' ''q1'' ''Bob'' 2 3 10 \<in> set (getLeaderboard exampleResults ''q1'')
   \<and> mkResult ''r2'' ''q1'' nbspBob 2 3 20 \<notin> set (getLeaderboard exampleResults ''q1'')"
proof -
  let ?a = "mkResult ''r1'' ''q1'' ''Bob'' 2 3 10"
  let ?b = "mkResult ''r2'' ''q1'' nbspBob 2 3 20"
  have a: "?a \<in> set exampleResults" and b: "?b \<in> set exampleResults"
    by (simp_all add: exampleResults_def)
  have n: "normalizedName ''Bob'' = normalizedName nbspBob"
    by code_simp
  have h: "quizId ?a = ''q1'' \<and> quizId ?b = ''q1'' \<and>
      normalizedName (studentName ?a) = normalizedName (studentName ?b) \<and>
      score ?a = score ?b \<and> date ?a < date ?b"
    using n by (simp add: mkResult_def)
  note c8 = C8_only_earliest_duplicate_survives [of exampleResults "''q1''"]
  from c8 [THEN conjunct2, THEN conjunct2, THEN conjunct2, THEN conjunct2] a b h
  have nb: "?b \<notin> set (getLeaderboard exampleResults ''q1'')"
    by blast
  have "?a \<in> set (getLeaderboard exampleResults ''q1'')"
    by code_simp
  with nb a b n show ?thesis by simp
qed

text \<open>
  C6. With an empty or whitespace-only student name, \<open>startQuiz\<close> reports the validation
  error (the error toast) and changes nothing else: the active quiz, the answer set, the
  remaining time, the view and the current result keep their values.
\<close>

theorem C6_blank_name_is_rejected:
  "trim (studentNameSt s) = [] \<longrightarrow>
     startQuiz quiz s = s\<lparr>toast := Some (''Please enter your name first.'', Error)\<rparr>
     \<and> answers (startQuiz quiz s) = answers s
     \<and> timeLeft (startQuiz quiz s) = timeLeft s
     \<and> view (startQuiz quiz s) = view s
     \<and> activeQuiz (startQuiz quiz s) = activeQuiz s
     \<and> currentResult (startQuiz quiz s) = currentResult s"
  by (simp add: startQuiz_def)

theorem C6_witness:
  "trim (studentNameSt (studentAt blankName)) = []
   \<and> startQuiz exampleQuiz (studentAt blankName) =
       (studentAt blankName)\<lparr>toast := Some (''Please enter your name first.'', Error)\<rparr>
   \<and> view (startQuiz exampleQuiz (studentAt blankName)) = StudentDash
   \<and> answers (startQuiz exampleQuiz (studentAt blankName)) = []
   \<and> timeLeft (startQuiz exampleQuiz (studentAt blankName)) = 0
   \<and> activeQuiz (startQuiz exampleQuiz (studentAt blankName)) = None"
proof -
  have t: "trim (studentNameSt (studentAt blankName)) = []"
    by (simp add: studentAt_def blankName_def trim_def isWhiteSpace_def)
  from C6_blank_name_is_rejected [of "studentAt blankName" exampleQuiz] t
  have "startQuiz exampleQuiz (studentAt blankName) =
      (studentAt blankName)\<lparr>toast := Some (''Please enter your name first.'', Error)\<rparr>"
    by blast
  with t show ?thesis by (simp add: studentAt_def)
qed

text \<open>
  C5, as the code has it. With a student name that is not blank, \<open>startQuiz\<close> makes the
  quiz active, allocates one answer slot per question, each -1, enters the quiz view, and
  sets the remaining time to \<open>(durationMinutes || 10) * 60\<close> seconds: 600 when
  \<open>durationMinutes\<close> is absent or 0, and 60 times its value otherwise.
\<close>

theorem C5_start_allocates_and_times:
  "trim (studentNameSt s) \<noteq> [] \<longrightarrow>
     answers (startQuiz quiz s) = replicate (length (questions quiz)) (- 1)
     \<and> length (answers (startQuiz quiz s)) = length (questions quiz)
     \<and> timeLeft (startQuiz quiz s) = orDefault (durationMinutes quiz) 10 * 60
     \<and> (durationMinutes quiz = None \<or> durationMinutes quiz = Some 0 \<longrightarrow>
          timeLeft (startQuiz quiz s) = 600)
     \<and> (\<forall>d. durationMinutes quiz = Some d \<and> d \<noteq> 0 \<longrightarrow> timeLeft (startQuiz quiz s) = d * 60)
     \<and> view (startQuiz quiz s) = StudentQuiz
     \<and> activeQuiz (startQuiz quiz s) = Some quiz"
  by (auto simp: startQuiz_def orDefault_def)

theorem C5_witness:
  "trim (studentNameSt (studentAt ''Asha'')) \<noteq> []
   \<and> durationMinutes exampleQuiz = Some 1
   \<and> answers (startQuiz exampleQuiz (studentAt ''Asha'')) = [- 1, - 1, - 1]
   \<and> timeLeft (startQuiz exampleQuiz (studentAt ''Asha'')) = 60
   \<and> view (startQuiz exampleQuiz (studentAt ''Asha'')) = StudentQuiz
   \<and> activeQuiz (startQuiz exampleQuiz (studentAt ''Asha'')) = Some exampleQuiz"
proof -
  have t: "trim (studentNameSt (studentAt ''Asha'')) \<noteq> []"
    by (simp add: studentAt_def trim_def isWhiteSpace_def)
  have d: "durationMinutes exampleQuiz = Some 1" and l: "length (questions exampleQuiz) = 3"
    by (simp_all add: exampleQuiz_def)
  note c5 = C5_start_allocates_and_times [of "studentAt ''Asha''" exampleQuiz, THEN mp, OF t]
  from c5 [THEN conjunct1]
  have a: "answers (startQuiz exampleQuiz (studentAt ''Asha'')) = [- 1, - 1, - 1]"
    by (simp add: l numeral_3_eq_3)
  from c5 [THEN conjunct2, THEN conjunct2, THEN conjunct2, THEN conjunct2, THEN conjunct1] d
  have tl: "timeLeft (startQuiz exampleQuiz (studentAt ''Asha'')) = 60"
    by simp
  from c5 [THEN conjunct2, THEN conjunct2, THEN conjunct2, THEN conjunct2, THEN conjunct2]
  have "view (startQuiz exampleQuiz (studentAt ''Asha'')) = StudentQuiz \<and>
      activeQuiz (startQuiz exampleQuiz (studentAt ''Asha'')) = Some exampleQuiz" .
  with t d a tl show ?thesis by simp
qed

text \<open>
  C5 as stated fails: for a quiz whose \<open>durationMinutes\<close> is 0 the specification's
  \<open>(durationMinutes ?? 10) * 60\<close> is 0 seconds, and \<open>startQuiz\<close> sets 600.
\<close>

theorem C5_counterexample:
  "trim (studentNameSt (studentAt ''Asha'')) \<noteq> []
   \<and> durationMinutes zeroMinuteQuiz = Some 0
   \<and> specRemaining zeroMinuteQuiz = 0
   \<and> timeLeft (startQuiz zeroMinuteQuiz (studentAt ''Asha'')) = 600
   \<and> timeLeft (startQuiz zeroMinuteQuiz (studentAt ''Asha'')) \<noteq> specRemaining zeroMinuteQuiz"
  by (simp add: startQuiz_def studentAt_def trim_def isWhiteSpace_def zeroMinuteQuiz_def
      exampleQuiz_def specRemaining_def orDefault_def)

text \<open>
  C4, as the code has it. In the quiz view with time left, a tick takes one second off
  the remaining time. The tick that brings it to 0 submits the quiz whatever the answer
  set holds; when the write of the result succeeds, the session is then in the result
  view with a result that carries the score of the answer set and the number of
  questions. A session started on a one-minute quiz is still in the quiz view after
  fewer than 60 ticks; after 60 ticks and a successful write it is in the result view,
  and on a quiz without negative \<open>correctIndex\<close> the score of its result is 0. When the
  write fails the session stays in the quiz view at 0 seconds without a result.
\<close>

theorem C4_timer_expiry_submits:
  "(view s = StudentQuiz \<and> 0 < timeLeft s \<longrightarrow>
      timeLeft (tick now written s) = timeLeft s - 1)
   \<and> (view s = StudentQuiz \<and> timeLeft s = 1 \<and> activeQuiz s = Some quiz \<longrightarrow>
      tick now written s = submitQuiz now written (s\<lparr>timeLeft := 0\<rparr>)
      \<and> view (tick now (Inr docId) s) = StudentResult
      \<and> (\<exists>r. currentResult (tick now (Inr docId) s) = Some r \<and>
             score r = computeScore quiz (answers s) \<and> total r = length (questions quiz))
      \<and> view (tick now (Inl msg) s) = StudentQuiz
      \<and> timeLeft (tick now (Inl msg) s) = 0
      \<and> currentResult (tick now (Inl msg) s) = currentResult s)
   \<and> (trim (studentNameSt s) \<noteq> [] \<and> durationMinutes quiz = Some 1 \<longrightarrow>
      timeLeft (startQuiz quiz s) = 60
      \<and> (\<forall>k<60. view ((tick now written ^^ k) (startQuiz quiz s)) = StudentQuiz \<and>
             timeLeft ((tick now written ^^ k) (startQuiz quiz s)) = 60 - int k)
      \<and> view ((tick now (Inr docId) ^^ 60) (startQuiz quiz s)) = StudentResult
      \<and> (\<exists>r. currentResult ((tick now (Inr docId) ^^ 60) (startQuiz quiz s)) = Some r \<and>
             total r = length (questions quiz) \<and>
             ((\<forall>q\<in>set (questions quiz). 0 \<le> correctIndex q) \<longrightarrow> score r = 0)))"
proof -
  have p1: "view s = StudentQuiz \<and> 0 < timeLeft s \<longrightarrow>
      timeLeft (tick now written s) = timeLeft s - 1"
    by (auto simp: tick_def timerEffect_def submitQuiz_def split: option.splits sum.splits)
  have p2: "view s = StudentQuiz \<and> timeLeft s = 1 \<and> activeQuiz s = Some quiz \<longrightarrow>
      tick now written s = submitQuiz now written (s\<lparr>timeLeft := 0\<rparr>)
      \<and> view (tick now (Inr docId) s) = StudentResult
      \<and> (\<exists>r. currentResult (tick now (Inr docId) s) = Some r \<and>
             score r = computeScore quiz (answers s) \<and> total r = length (questions quiz))
      \<and> view (tick now (Inl msg) s) = StudentQuiz
      \<and> timeLeft (tick now (Inl msg) s) = 0
      \<and> currentResult (tick now (Inl msg) s) = currentResult s"
  proof
    assume h: "view s = StudentQuiz \<and> timeLeft s = 1 \<and> activeQuiz s = Some quiz"
    then have t: "tick now w s = submitQuiz now w (s\<lparr>timeLeft := 0\<rparr>)" for w
      by (simp add: tick_expiry)
    from h show "tick now written s = submitQuiz now written (s\<lparr>timeLeft := 0\<rparr>)
      \<and> view (tick now (Inr docId) s) = StudentResult
      \<and> (\<exists>r. currentResult (tick now (Inr docId) s) = Some r \<and>
             score r = computeScore quiz (answers s) \<and> total r = length (questions quiz))
      \<and> view (tick now (Inl msg) s) = StudentQuiz
      \<and> timeLeft (tick now (Inl msg) s) = 0
      \<and> currentResult (tick now (Inl msg) s) = currentResult s"
      by (simp add: t submitQuiz_def)
  qed
  have p3: "trim (studentNameSt s) \<noteq> [] \<and> durationMinutes quiz = Some 1 \<longrightarrow>
      timeLeft (startQuiz quiz s) = 60
      \<and> (\<forall>k<60. view ((tick now written ^^ k) (startQuiz quiz s)) = StudentQuiz \<and>
             timeLeft ((tick now written ^^ k) (startQuiz quiz s)) = 60 - int k)
      \<and> view ((tick now (Inr docId) ^^ 60) (startQuiz quiz s)) = StudentResult
      \<and> (\<exists>r. currentResult ((tick now (Inr docId) ^^ 60) (startQuiz quiz s)) = Some r \<and>
             total r = length (questions quiz) \<and>
             ((\<forall>q\<in>set (questions quiz). 0 \<le> correctIndex q) \<longrightarrow> score r = 0))"
  proof
    assume h: "trim (studentNameSt s) \<noteq> [] \<and> durationMinutes quiz = Some 1"
    let ?s0 = "startQuiz quiz s"
    from h have v: "view ?s0 = StudentQuiz" and tl: "timeLeft ?s0 = 60"
      and aq: "activeQuiz ?s0 = Some quiz"
      and an: "answers ?s0 = replicate (length (questions quiz)) (- 1)"
      by (simp_all add: startQuiz_def orDefault_def)
    have run: "(tick now w ^^ k) ?s0 = ?s0\<lparr>timeLeft := 60 - int k\<rparr>" if "k < 60" for k w
      using ticks_running [of ?s0 k now w] v tl that by simp
    have a: "\<forall>k<60. view ((tick now written ^^ k) ?s0) = StudentQuiz \<and>
        timeLeft ((tick now written ^^ k) ?s0) = 60 - int k"
      using run v by simp
    have fin: "(tick now (Inr docId) ^^ 60) ?s0 =
        submitQuiz now (Inr docId) (?s0\<lparr>timeLeft := 0\<rparr>)"
      using ticks_expiry [of ?s0 59 quiz now "Inr docId"] v tl aq by simp
    have b: "view ((tick now (Inr docId) ^^ 60) ?s0) = StudentResult"
      using aq by (simp add: fin submitQuiz_def)
    have c: "\<exists>r. currentResult ((tick now (Inr docId) ^^ 60) ?s0) = Some r \<and>
        total r = length (questions quiz) \<and>
        ((\<forall>q\<in>set (questions quiz). 0 \<le> correctIndex q) \<longrightarrow> score r = 0)"
      using aq an by (simp add: fin submitQuiz_def computeScore_unanswered)
    from tl a b c show "timeLeft ?s0 = 60
      \<and> (\<forall>k<60. view ((tick now written ^^ k) ?s0) = StudentQuiz \<and>
             timeLeft ((tick now written ^^ k) ?s0) = 60 - int k)
      \<and> view ((tick now (Inr docId) ^^ 60) ?s0) = StudentResult
      \<and> (\<exists>r. currentResult ((tick now (Inr docId) ^^ 60) ?s0) = Some r \<and>
             total r = length (questions quiz) \<and>
             ((\<forall>q\<in>set (questions quiz). 0 \<le> correctIndex q) \<longrightarrow> score r = 0))"
      by (intro conjI)
  qed
  from p1 p2 p3 show ?thesis by (intro conjI)
qed

theorem C4_witness:
  "trim (studentNameSt (studentAt ''Asha'')) \<noteq> []
   \<and> durationMinutes exampleQuiz = Some 1
   \<and> list_all (\<lambda>q. 0 \<le> correctIndex q) (questions exampleQuiz)
   \<and> timeLeft (startQuiz exampleQuiz (studentAt ''Asha'')) = 60
   \<and> view ((tick 1000 (Inr ''doc1'') ^^ 59) (startQuiz exampleQuiz (studentAt ''Asha''))) = StudentQuiz
   \<and> timeLeft ((tick 1000 (Inr ''doc1'') ^^ 59) (startQuiz exampleQuiz (studentAt ''Asha''))) = 1
   \<and> view ((tick 1000 (Inr ''doc1'') ^^ 60) (startQuiz exampleQuiz (studentAt ''Asha''))) = StudentResult
   \<and> (\<exists>r. currentResult ((tick 1000 (Inr ''doc1'') ^^ 60) (startQuiz exampleQuiz (studentAt ''Asha'')))
             = Some r \<and> total r = 3 \<and> score r = 0)"
proof -
  have t: "trim (studentNameSt (studentAt ''Asha'')) \<noteq> [] \<and> durationMinutes exampleQuiz = Some 1"
    by (simp add: studentAt_def trim_def isWhiteSpace_def exampleQuiz_def)
  have inv: "\<forall>q\<in>set (questions exampleQuiz). 0 \<le> correctIndex q"
    and l: "length (questions exampleQuiz) = 3"
    by (simp_all add: exampleQuiz_def mkQuestion_def)
  note c4 = C4_timer_expiry_submits [where s = "studentAt ''Asha''" and quiz = exampleQuiz
      and now = 1000 and written = "Inr ''doc1''" and docId = "''doc1''",
      THEN conjunct2, THEN conjunct2, THEN mp, OF t]
  from c4 [THEN conjunct1]
  have a: "timeLeft (startQuiz exampleQuiz (studentAt ''Asha'')) = 60" .
  from c4 [THEN conjunct2, THEN conjunct1, THEN spec, of 59]
  have b: "view ((tick 1000 (Inr ''doc1'') ^^ 59) (startQuiz exampleQuiz (studentAt ''Asha''))) = StudentQuiz
      \<and> timeLeft ((tick 1000 (Inr ''doc1'') ^^ 59) (startQuiz exampleQuiz (studentAt ''Asha''))) = 1"
    by simp
  from c4 [THEN conjunct2, THEN conjunct2, THEN conjunct1]
  have c: "view ((tick 1000 (Inr ''doc1'') ^^ 60) (startQuiz exampleQuiz (studentAt ''Asha''))) = StudentResult" .
  from c4 [THEN conjunct2, THEN conjunct2, THEN conjunct2] inv l
  have d: "\<exists>r. currentResult ((tick 1000 (Inr ''doc1'') ^^ 60) (startQuiz exampleQuiz (studentAt ''Asha'')))
      = Some r \<and> total r = 3 \<and> score r = 0"
    by auto
  have "list_all (\<lambda>q. 0 \<le> correctIndex q) (questions exampleQuiz)"
    using inv by (simp add: list_all_iff)
  with t a b c d show ?thesis by simp
qed

text \<open>
  C4 as stated fails when the write of the result fails: the one-minute session is, after
  60 ticks without any answer, still in the quiz view at 0 seconds, and has no result.
\<close>

theorem C4_counterexample:
  "trim (studentNameSt (studentAt ''Asha'')) \<noteq> []
   \<and> durationMinutes exampleQuiz = Some 1
   \<and> view ((tick 1000 (Inl ''unavailable'') ^^ 60) (startQuiz exampleQuiz (studentAt ''Asha'')))
       = StudentQuiz
   \<and> timeLeft ((tick 1000 (Inl ''unavailable'') ^^ 60) (startQuiz exampleQuiz (studentAt ''Asha'')))
       = 0
   \<and> currentResult
         ((tick 1000 (Inl ''unavailable'') ^^ 60) (startQuiz exampleQuiz (studentAt ''Asha'')))
       = None
   \<and> view ((tick 1000 (Inl ''unavailable'') ^^ 60) (startQuiz exampleQuiz (studentAt ''Asha'')))
       \<noteq> StudentResult"
proof -
  let ?s0 = "startQuiz exampleQuiz (studentAt ''Asha'')"
  have t: "trim (studentNameSt (studentAt ''Asha'')) \<noteq> []"
    and d: "durationMinutes exampleQuiz = Some 1"
    by (simp_all add: studentAt_def trim_def isWhiteSpace_def exampleQuiz_def)
  from t d have v: "view ?s0 = StudentQuiz" and tl: "timeLeft ?s0 = 60"
    and aq: "activeQuiz ?s0 = Some exampleQuiz" and cr: "currentResult ?s0 = None"
    by (simp_all add: startQuiz_def orDefault_def studentAt_def)
  have fin: "(tick 1000 (Inl ''unavailable'') ^^ 60) ?s0 =
      submitQuiz 1000 (Inl ''unavailable'') (?s0\<lparr>timeLeft := 0\<rparr>)"
    using ticks_expiry [of ?s0 59 exampleQuiz 1000 "Inl ''unavailable''"] v tl aq by simp
  show ?thesis
    using t d v aq cr by (simp add: fin submitQuiz_def)
qed




text \<open>
  C7, as the code has it. The Top-3 badge holds exactly when some result whose name equals
  the given name up to letter case (lowercased, not trimmed) belongs to a quiz whose
  leaderboard has, among its first three entries, an entry whose name equals the given
  name up to letter case.
\<close>

theorem C7_top3_matches_by_lowercase:
  "hasAnyTop3 name allResults =
     (\<exists>r\<in>set allResults. toLowerCase (studentName r) = toLowerCase name \<and>
        (\<exists>i<3. i < length (getLeaderboard allResults (quizId r)) \<and>
           toLowerCase (studentName (getLeaderboard allResults (quizId r) ! i)) =
             toLowerCase name))"
  unfolding hasAnyTop3_def isTop3_take list_ex_take
  by (simp add: list_ex_iff sameStudent_def)

theorem C7_witness:
  "hasAnyTop3 elanLower exampleResults
   \<and> (\<exists>r\<in>set exampleResults. toLowerCase (studentName r) = toLowerCase elanLower \<and>
        (\<exists>i<3. i < length (getLeaderboard exampleResults (quizId r)) \<and>
           toLowerCase (studentName (getLeaderboard exampleResults (quizId r) ! i)) =
             toLowerCase elanLower))"
proof -
  have "hasAnyTop3 elanLower exampleResults"
    by code_simp
  then show ?thesis
    using C7_top3_matches_by_lowercase [of elanLower exampleResults] by simp
qed

text \<open>
  C7 as stated fails: the name \<open>Bob\<close> followed by a space has the normalized name of the
  result of \<open>Bob\<close>, which is first in its leaderboard, so the specification gives the
  badge; the code compares the lowercased names without trimming and does not.
\<close>

theorem C7_counterexample:
  "normalizedName ''Bob '' = normalizedName ''Bob''
   \<and> getLeaderboard untrimmedResults ''q1'' = untrimmedResults
   \<and> specTop3 ''Bob '' untrimmedResults
   \<and> \<not> hasAnyTop3 ''Bob '' untrimmedResults"
  by code_simp

end
